theory Spec2Isabelle
  imports Main "HOL-Library.AList"
begin

section \<open>The signalling server of \<^verbatim>\<open>WebRTCSignalingServer\<close>\<close>

text \<open>
  The class \<^verbatim>\<open>WebRTCSignalingServer\<close> keeps one mutable field that matters for its
  behaviour, the map \<^verbatim>\<open>clients\<close>, and acts on the outside world through objects of
  libraries: WebSocket channels (\<^verbatim>\<open>ws\<close>), peer connections (\<^verbatim>\<open>werift\<close>), write
  streams (\<^verbatim>\<open>fs\<close>), child processes (\<^verbatim>\<open>child_process\<close>) and the console.

  The model passes the server's state explicitly. Every call into a library is recorded,
  in program order, as an entry of a trace kept in the state, so that "a message is sent",
  "a process is spawned" or "a process is signalled" are statements about that trace.
  Objects created by a library (\<^verbatim>\<open>new RTCPeerConnection\<close>, \<^verbatim>\<open>spawn\<close>) are identified by
  a fresh number taken from a counter. What a library call answers (whether a description
  is accepted, what the negotiated local description is) is a parameter of the model.

  Each handler is modelled as one atomic step: the steps of an asynchronous handler are
  taken in program order with no other handler in between.
\<close>

subsection \<open>Messages\<close>

datatype message_type =
    server_offer | server_answer | server_candidate
  | direct_offer | direct_answer | direct_candidate
  | signal_initiate_p2p

text \<open>\<^verbatim>\<open>RTCSessionDescriptionInit\<close>: both fields are optional.\<close>

record RTCSessionDescriptionInit =
  desc_type :: "string option"
  desc_sdp :: "string option"

text \<open>\<^verbatim>\<open>RTCIceCandidateInit\<close>: all fields are optional.\<close>

record RTCIceCandidateInit =
  cand_candidate :: "string option"
  cand_sdpMid :: "string option"
  cand_sdpMLineIndex :: "nat option"
  cand_usernameFragment :: "string option"

text \<open>The \<^verbatim>\<open>payload\<close> of a \<^verbatim>\<open>SignalingMessage\<close>; an absent field is \<open>None\<close>.\<close>

record Payload =
  sdp :: "RTCSessionDescriptionInit option"
  candidate :: "RTCIceCandidateInit option"
  toPeerID :: "string option"
  fromPeerID :: "string option"
  clientId :: "string option"

record SignalingMessage =
  mtype :: message_type
  payload :: Payload

text \<open>
  The objects the server serialises and sends on a channel:
  \<^item> \<open>InitiateP2P f\<close> is \<^verbatim>\<open>{type: "signal-initiate-p2p", payload: {fromPeerID: f}}\<close>,
  \<^item> \<open>ServerCandidate c\<close> is \<^verbatim>\<open>{type: "server-candidate", payload: {candidate: c}}\<close>,
  \<^item> \<open>ServerAnswer a\<close> is \<^verbatim>\<open>{type: "server-answer", payload: {sdp: a}}\<close>, where \<open>a\<close> is
    \<^verbatim>\<open>pc.localDescription?.sdp\<close>,
  \<^item> \<open>Relay m\<close> is a relayed \<^verbatim>\<open>SignalingMessage\<close>,
  \<^item> \<open>PeerDisconnected c\<close> is \<^verbatim>\<open>{type: "peer-disconnected", payload: {clientId: c}}\<close>.
\<close>

datatype outgoing =
    InitiateP2P string
  | ServerCandidate RTCIceCandidateInit
  | ServerAnswer "string option"
  | Relay SignalingMessage
  | PeerDisconnected string

subsection \<open>Clients and the server state\<close>

datatype ready_state = CONNECTING | OPEN | CLOSING | CLOSED

datatype media_kind = video | audio

text \<open>
  \<^verbatim>\<open>ClientConnection\<close>. The field \<^verbatim>\<open>id\<close> is \<open>client_id\<close> here. The channel, the peer
  connection, the streams and the child process are references to library objects: a
  number each. \<^verbatim>\<open>mediaStreams\<close> lists its properties in the order they were first
  assigned, which is the order \<^verbatim>\<open>Object.values\<close> visits them in.
\<close>

record ClientConnection =
  client_id :: string
  ws :: nat
  peerConnection :: "nat option"
  mediaStreams :: "(media_kind \<times> nat) list"
  ffmpegProcess :: "nat option"

text \<open>
  An argument of a command line: a string literal of the source, or a call of
  \<^verbatim>\<open>path.join\<close>, kept as the call it is (the path library is not part of the program).
\<close>

datatype pathexpr = Str string | path_join "pathexpr list"

text \<open>What the three awaited calls of \<^verbatim>\<open>handleServerOffer\<close> can do: the first one that
  throws, or all succeed and \<^verbatim>\<open>pc.localDescription?.sdp\<close> has the given value.\<close>

datatype negotiation =
    SetRemoteDescriptionThrows
  | CreateAnswerThrows
  | SetLocalDescriptionThrows
  | Negotiated "string option"

text \<open>The behaviour of the peer-connection library, by peer connection and argument.\<close>

record werift =
  negotiate :: "nat \<Rightarrow> string option \<Rightarrow> negotiation"
  addIceCandidate_resolves :: "nat \<Rightarrow> string option \<Rightarrow> bool"

datatype effect =
    WsClose nat nat string
  | WsSend nat outgoing
  | NewPeerConnection nat
  | SetRemoteDescription nat "string option"
  | CreateAnswer nat
  | SetLocalDescription nat
  | AddIceCandidate nat "string option"
  | PcClose nat
  | Mkdir pathexpr
  | CreateWriteStream nat pathexpr
  | SetTimeout string nat
  | StreamEnd nat
  | Spawn nat "pathexpr list"
  | Kill nat
  | ConsoleLog string
  | ConsoleError string

text \<open>
  The state: the map \<^verbatim>\<open>clients\<close> in insertion order (a JavaScript \<^verbatim>\<open>Map\<close> iterates in
  insertion order), the \<^verbatim>\<open>readyState\<close> of every channel, the trace of library calls made
  so far, and the counter of library objects created.
\<close>

record server_state =
  clients :: "(string \<times> ClientConnection) list"
  readyState :: "nat \<Rightarrow> ready_state"
  effects :: "effect list"
  next_handle :: nat

definition outputDir :: string where
  "outputDir = ''./output''"

definition hlsDir :: string where
  "hlsDir = ''./hls''"

text \<open>\<^verbatim>\<open>Map.prototype.get\<close>, \<^verbatim>\<open>set\<close> and \<^verbatim>\<open>delete\<close>: \<^verbatim>\<open>set\<close> on a key that is present
  replaces the value where it stands, on a new key it appends.\<close>

definition Map_get :: "(string \<times> 'v) list \<Rightarrow> string \<Rightarrow> 'v option" where
  "Map_get m k = map_of m k"

definition Map_set :: "string \<Rightarrow> 'v \<Rightarrow> (string \<times> 'v) list \<Rightarrow> (string \<times> 'v) list" where
  "Map_set k v m = AList.update k v m"

definition Map_delete :: "string \<Rightarrow> (string \<times> 'v) list \<Rightarrow> (string \<times> 'v) list" where
  "Map_delete k m = AList.delete k m"

text \<open>Appending library calls to the trace.\<close>

definition emit :: "effect list \<Rightarrow> server_state \<Rightarrow> server_state" where
  "emit es s = s\<lparr>effects := effects s @ es\<rparr>"

text \<open>A library object is created: its number is the counter's value.\<close>

definition fresh :: "server_state \<Rightarrow> server_state" where
  "fresh s = s\<lparr>next_handle := Suc (next_handle s)\<rparr>"

subsection \<open>Connection\<close>

text \<open>
  The handler of \<^verbatim>\<open>wss.on("connection")\<close>, given the new channel and the value of
  \<^verbatim>\<open>url.searchParams.get("clientId")\<close> (\<open>None\<close> for \<^verbatim>\<open>null\<close>). \<^verbatim>\<open>!clientId\<close> holds for
  \<^verbatim>\<open>null\<close> and for the empty string.
\<close>

definition on_connection :: "nat \<Rightarrow> string option \<Rightarrow> server_state \<Rightarrow> server_state" where
  "on_connection w q s =
     (case q of
        None \<Rightarrow> emit [WsClose w 1008 ''Client ID required''] s
      | Some cid \<Rightarrow>
          if cid = [] then emit [WsClose w 1008 ''Client ID required''] s
          else
            let client = \<lparr>client_id = cid, ws = w, peerConnection = None,
                          mediaStreams = [], ffmpegProcess = None\<rparr>
            in emit [ConsoleLog (''Client '' @ cid @ '' connected'')]
                 (s\<lparr>clients := Map_set cid client (clients s)\<rparr>))"

subsection \<open>Signalling\<close>

definition handleInitiateP2P :: "string \<Rightarrow> server_state \<Rightarrow> server_state" where
  "handleInitiateP2P fromClientId s =
     emit (map (\<lambda>(cid, client). WsSend (ws client) (InitiateP2P fromClientId))
             (filter (\<lambda>(cid, client). cid \<noteq> fromClientId \<and> readyState s (ws client) = OPEN)
                (clients s))) s"

text \<open>The text of the log line; the error object that follows it is not modelled.\<close>

definition offer_error_line :: "string \<Rightarrow> string" where
  "offer_error_line cid = ''Error handling server offer from '' @ cid @ '':''"

definition handleServerOffer ::
  "werift \<Rightarrow> string \<Rightarrow> SignalingMessage \<Rightarrow> server_state \<Rightarrow> server_state" where
  "handleServerOffer lib cid message s =
     (case Map_get (clients s) cid of
        None \<Rightarrow> s
      | Some client \<Rightarrow>
         (case sdp (payload message) of
            None \<Rightarrow> s
          | Some offer \<Rightarrow>
             let pc = next_handle s;
                 s1 = emit [NewPeerConnection pc]
                        (fresh (s\<lparr>clients :=
                           Map_set cid (client\<lparr>peerConnection := Some pc\<rparr>) (clients s)\<rparr>))
             in (case negotiate lib pc (desc_sdp offer) of
                   SetRemoteDescriptionThrows \<Rightarrow>
                     emit [SetRemoteDescription pc (desc_sdp offer),
                           ConsoleError (offer_error_line cid)] s1
                 | CreateAnswerThrows \<Rightarrow>
                     emit [SetRemoteDescription pc (desc_sdp offer), CreateAnswer pc,
                           ConsoleError (offer_error_line cid)] s1
                 | SetLocalDescriptionThrows \<Rightarrow>
                     emit [SetRemoteDescription pc (desc_sdp offer), CreateAnswer pc,
                           SetLocalDescription pc,
                           ConsoleError (offer_error_line cid)] s1
                 | Negotiated local \<Rightarrow>
                     emit [SetRemoteDescription pc (desc_sdp offer), CreateAnswer pc,
                           SetLocalDescription pc,
                           WsSend (ws client) (ServerAnswer local)] s1)))"

text \<open>
  The callback that \<^verbatim>\<open>handleServerOffer\<close> installs as \<^verbatim>\<open>pc.onicecandidate\<close>. It reads the
  channel of the client object that the handler held, \<open>w\<close> here; \<open>c\<close> is the candidate
  (\<open>None\<close> for \<^verbatim>\<open>null\<close>) in the form \<^verbatim>\<open>candidate.toJSON()\<close> gives it.
\<close>

definition onicecandidate ::
  "nat \<Rightarrow> RTCIceCandidateInit option \<Rightarrow> server_state \<Rightarrow> server_state" where
  "onicecandidate w c s =
     (case c of
        None \<Rightarrow> s
      | Some cand \<Rightarrow>
          if readyState s w = OPEN then emit [WsSend w (ServerCandidate cand)] s else s)"

definition handleServerCandidate ::
  "werift \<Rightarrow> string \<Rightarrow> SignalingMessage \<Rightarrow> server_state \<Rightarrow> server_state" where
  "handleServerCandidate lib cid message s =
     (case Map_get (clients s) cid of
        None \<Rightarrow> s
      | Some client \<Rightarrow>
         (case peerConnection client of
            None \<Rightarrow> s
          | Some pc \<Rightarrow>
             (case candidate (payload message) of
                None \<Rightarrow> s
              | Some c \<Rightarrow>
                 if addIceCandidate_resolves lib pc (cand_candidate c)
                 then emit [AddIceCandidate pc (cand_candidate c)] s
                 else emit [AddIceCandidate pc (cand_candidate c),
                            ConsoleError (''Error adding ICE candidate for '' @ cid @ '':'')] s)))"

text \<open>\<^verbatim>\<open>!targetClientId\<close> holds for an absent \<^verbatim>\<open>toPeerID\<close> and for the empty string.\<close>

definition relayP2PMessage :: "string \<Rightarrow> SignalingMessage \<Rightarrow> server_state \<Rightarrow> server_state" where
  "relayP2PMessage fromClientId message s =
     (case toPeerID (payload message) of
        None \<Rightarrow> s
      | Some targetClientId \<Rightarrow>
          if targetClientId = [] then s
          else
            (case Map_get (clients s) targetClientId of
               None \<Rightarrow> s
             | Some targetClient \<Rightarrow>
                 if readyState s (ws targetClient) = OPEN
                 then
                   let relayMessage =
                         message\<lparr>payload := (payload message)\<lparr>fromPeerID := Some fromClientId\<rparr>\<rparr>
                   in emit [WsSend (ws targetClient) (Relay relayMessage)] s
                 else s))"

definition handleSignalingMessage ::
  "werift \<Rightarrow> string \<Rightarrow> SignalingMessage \<Rightarrow> server_state \<Rightarrow> server_state" where
  "handleSignalingMessage lib cid message s =
     (case Map_get (clients s) cid of
        None \<Rightarrow> s
      | Some client \<Rightarrow>
         (case mtype message of
            signal_initiate_p2p \<Rightarrow> handleInitiateP2P cid s
          | server_offer \<Rightarrow> handleServerOffer lib cid message s
          | server_candidate \<Rightarrow> handleServerCandidate lib cid message s
          | direct_offer \<Rightarrow> relayP2PMessage cid message s
          | direct_answer \<Rightarrow> relayP2PMessage cid message s
          | direct_candidate \<Rightarrow> relayP2PMessage cid message s
          | server_answer \<Rightarrow> s))"

subsection \<open>Incoming tracks\<close>

text \<open>
  \<^verbatim>\<open>setupVideoProcessing\<close> opens two write streams, stores the first as the client's
  video stream and arms the one-shot timer that later calls \<^verbatim>\<open>startHLSProcessing\<close>
  (recorded as \<open>SetTimeout\<close>; the timer firing is a step of its own). The per-packet
  callbacks installed on the track only write to the streams and are not modelled.
\<close>

definition setupVideoProcessing :: "string \<Rightarrow> server_state \<Rightarrow> server_state" where
  "setupVideoProcessing cid s =
     (case Map_get (clients s) cid of
        None \<Rightarrow> s
      | Some client \<Rightarrow>
          let videoPath = path_join [Str outputDir, Str cid, Str ''video.h264''];
              ivfPath = path_join [Str outputDir, Str cid, Str ''video.ivf''];
              h264Stream = next_handle s;
              ivfStream = Suc (next_handle s)
          in emit [CreateWriteStream h264Stream videoPath,
                   CreateWriteStream ivfStream ivfPath,
                   SetTimeout cid 2000]
               (fresh (fresh (s\<lparr>clients :=
                  Map_set cid
                    (client\<lparr>mediaStreams :=
                       AList.update video h264Stream (mediaStreams client)\<rparr>)
                    (clients s)\<rparr>))))"

definition setupAudioProcessing :: "string \<Rightarrow> server_state \<Rightarrow> server_state" where
  "setupAudioProcessing cid s =
     (case Map_get (clients s) cid of
        None \<Rightarrow> s
      | Some client \<Rightarrow>
          let audioPath = path_join [Str outputDir, Str cid, Str ''audio.ogg''];
              audioStream = next_handle s
          in emit [CreateWriteStream audioStream audioPath]
               (fresh (s\<lparr>clients :=
                  Map_set cid
                    (client\<lparr>mediaStreams :=
                       AList.update audio audioStream (mediaStreams client)\<rparr>)
                    (clients s)\<rparr>)))"

text \<open>\<open>kind\<close> is \<^verbatim>\<open>track.kind\<close>; \<open>dir_exists\<close> is what \<^verbatim>\<open>existsSync(outputPath)\<close>
  answers.\<close>

definition handleIncomingTrack :: "string \<Rightarrow> string \<Rightarrow> bool \<Rightarrow> server_state \<Rightarrow> server_state" where
  "handleIncomingTrack cid kind dir_exists s =
     (case Map_get (clients s) cid of
        None \<Rightarrow> s
      | Some client \<Rightarrow>
          let outputPath = path_join [Str outputDir, Str cid];
              s1 = (if \<not> dir_exists then emit [Mkdir outputPath] s else s)
          in if kind = ''video'' then setupVideoProcessing cid s1
             else if kind = ''audio'' then setupAudioProcessing cid s1
             else s1)"

subsection \<open>Transcoding\<close>

definition single_ffmpegArgs :: "pathexpr \<Rightarrow> pathexpr \<Rightarrow> pathexpr \<Rightarrow> pathexpr list" where
  "single_ffmpegArgs videoPath audioPath hlsPath =
     [Str ''-re'', Str ''-i'', videoPath, Str ''-i'', audioPath,
      Str ''-c:v'', Str ''libx264'', Str ''-preset'', Str ''ultrafast'',
      Str ''-tune'', Str ''zerolatency'', Str ''-c:a'', Str ''aac'',
      Str ''-b:a'', Str ''128k'', Str ''-f'', Str ''hls'',
      Str ''-hls_time'', Str ''2'', Str ''-hls_list_size'', Str ''10'',
      Str ''-hls_flags'', Str ''delete_segments'', Str ''-hls_allow_cache'', Str ''0'',
      hlsPath]"

definition createSingleClientHLSStream ::
  "string \<Rightarrow> pathexpr \<Rightarrow> pathexpr \<Rightarrow> pathexpr \<Rightarrow> server_state \<Rightarrow> server_state" where
  "createSingleClientHLSStream cid videoPath audioPath hlsPath s =
     (case Map_get (clients s) cid of
        None \<Rightarrow> s
      | Some client \<Rightarrow>
          let p = next_handle s
          in emit [Spawn p (single_ffmpegArgs videoPath audioPath hlsPath),
                   ConsoleLog (''Started HLS processing for client '' @ cid)]
               (fresh (s\<lparr>clients :=
                  Map_set cid (client\<lparr>ffmpegProcess := Some p\<rparr>) (clients s)\<rparr>)))"

definition composite_ffmpegArgs ::
  "pathexpr \<Rightarrow> pathexpr \<Rightarrow> pathexpr \<Rightarrow> pathexpr \<Rightarrow> pathexpr list" where
  "composite_ffmpegArgs video1Path video2Path audio1Path compositeHlsPath =
     [Str ''-re'', Str ''-i'', video1Path, Str ''-i'', video2Path, Str ''-i'', audio1Path,
      Str ''-filter_complex'', Str ''[0:v][1:v]hstack=inputs=2[v]'',
      Str ''-map'', Str ''[v]'', Str ''-map'', Str ''2:a'',
      Str ''-c:v'', Str ''libx264'', Str ''-preset'', Str ''ultrafast'',
      Str ''-tune'', Str ''zerolatency'', Str ''-c:a'', Str ''aac'',
      Str ''-b:a'', Str ''128k'', Str ''-f'', Str ''hls'',
      Str ''-hls_time'', Str ''2'', Str ''-hls_list_size'', Str ''10'',
      Str ''-hls_flags'', Str ''delete_segments'', Str ''-hls_allow_cache'', Str ''0'',
      compositeHlsPath]"

definition createCompositeHLSStream :: "server_state \<Rightarrow> server_state" where
  "createCompositeHLSStream s =
     (let activeClients = filter (\<lambda>(cid, c). peerConnection c \<noteq> None) (clients s)
      in if length activeClients < 2 then s
         else
           (case take 2 activeClients of
              [(id1, connection1), (id2, connection2)] \<Rightarrow>
                let video1Path = path_join [Str outputDir, Str id1, Str ''video.h264''];
                    video2Path = path_join [Str outputDir, Str id2, Str ''video.h264''];
                    audio1Path = path_join [Str outputDir, Str id1, Str ''audio.ogg''];
                    compositeHlsPath = path_join [Str hlsDir, Str ''playlist.m3u8''];
                    compositeProcess = next_handle s
                in emit [Spawn compositeProcess
                           (composite_ffmpegArgs video1Path video2Path audio1Path
                              compositeHlsPath),
                         ConsoleLog ''Started composite HLS stream processing'']
                     (fresh s)
            | _ \<Rightarrow> s))"

definition startHLSProcessing :: "string \<Rightarrow> server_state \<Rightarrow> server_state" where
  "startHLSProcessing cid s =
     (case Map_get (clients s) cid of
        None \<Rightarrow> s
      | Some client \<Rightarrow>
          if ffmpegProcess client \<noteq> None then s
          else
            let inputDir = path_join [Str outputDir, Str cid];
                videoPath = path_join [inputDir, Str ''video.h264''];
                audioPath = path_join [inputDir, Str ''audio.ogg''];
                hlsPath = path_join [Str hlsDir, Str ''playlist.m3u8''];
                activeClients = filter (\<lambda>c. peerConnection c \<noteq> None) (map snd (clients s))
            in if length activeClients \<ge> 2 then createCompositeHLSStream s
               else createSingleClientHLSStream cid videoPath audioPath hlsPath s)"

subsection \<open>Disconnection\<close>

definition handleClientDisconnect :: "string \<Rightarrow> server_state \<Rightarrow> server_state" where
  "handleClientDisconnect cid s =
     (case Map_get (clients s) cid of
        None \<Rightarrow> s
      | Some client \<Rightarrow>
          let s1 = emit [ConsoleLog (''Client '' @ cid @ '' disconnected'')] s;
              s2 = (case peerConnection client of
                      None \<Rightarrow> s1
                    | Some pc \<Rightarrow> emit [PcClose pc] s1);
              s3 = emit (map (\<lambda>(k, stream). StreamEnd stream) (mediaStreams client)) s2;
              s4 = (case ffmpegProcess client of
                      None \<Rightarrow> s3
                    | Some p \<Rightarrow> emit [Kill p] s3);
              s5 = s4\<lparr>clients := Map_delete cid (clients s4)\<rparr>
          in emit (map (\<lambda>(otherClientId, otherClient).
                          WsSend (ws otherClient) (PeerDisconnected cid))
                     (filter (\<lambda>(otherClientId, otherClient).
                                readyState s5 (ws otherClient) = OPEN)
                        (clients s5))) s5)"

subsection \<open>The event loop\<close>

text \<open>
  The callbacks the constructor and the handlers register, as the events of one loop:
  a connection, a message on the channel of a client, a local candidate found by a peer
  connection, an incoming track of a client's peer connection (logged, then handed to
  \<^verbatim>\<open>handleIncomingTrack\<close>), the timer of
  \<^verbatim>\<open>setupVideoProcessing\<close> firing, and the close or the error of a client's channel.
  The channels' \<^verbatim>\<open>readyState\<close> changes outside the program: \<open>Ready\<close> sets it.
\<close>

datatype event =
    Connection nat "string option"
  | Message string SignalingMessage
  | IceCandidate nat "RTCIceCandidateInit option"
  | Track string string bool
  | Timer string
  | Close string
  | Error string
  | Ready nat ready_state

definition step :: "werift \<Rightarrow> event \<Rightarrow> server_state \<Rightarrow> server_state" where
  "step lib e s =
     (case e of
        Connection w q \<Rightarrow> on_connection w q s
      | Message cid m \<Rightarrow> handleSignalingMessage lib cid m s
      | IceCandidate w c \<Rightarrow> onicecandidate w c s
      | Track cid kind dir_exists \<Rightarrow>
          handleIncomingTrack cid kind dir_exists
            (emit [ConsoleLog (''Received '' @ kind @ '' track from client '' @ cid)] s)
      | Timer cid \<Rightarrow> startHLSProcessing cid s
      | Close cid \<Rightarrow> handleClientDisconnect cid s
      | Error cid \<Rightarrow>
          handleClientDisconnect cid
            (emit [ConsoleError (''WebSocket error for client '' @ cid @ '':'')] s)
      | Ready w r \<Rightarrow> s\<lparr>readyState := (readyState s)(w := r)\<rparr>)"

fun run :: "werift \<Rightarrow> event list \<Rightarrow> server_state \<Rightarrow> server_state" where
  "run lib [] s = s"
| "run lib (e # es) s = run lib es (step lib e s)"

text \<open>The messages sent, the processes spawned and the processes signalled in a trace.\<close>

fun sends :: "effect list \<Rightarrow> (nat \<times> outgoing) list" where
  "sends [] = []"
| "sends (WsSend w m # es) = (w, m) # sends es"
| "sends (e # es) = sends es"

fun spawns :: "effect list \<Rightarrow> nat list" where
  "spawns [] = []"
| "spawns (Spawn p args # es) = p # spawns es"
| "spawns (e # es) = spawns es"

fun kills :: "effect list \<Rightarrow> nat list" where
  "kills [] = []"
| "kills (Kill p # es) = p # kills es"
| "kills (e # es) = kills es"

text \<open>What a step added to the trace.\<close>

definition new_effects :: "server_state \<Rightarrow> server_state \<Rightarrow> effect list" where
  "new_effects s s' = drop (length (effects s)) (effects s')"

subsection \<open>Process handles\<close>

text \<open>The constructor leaves the map of clients empty; nothing has been done yet.\<close>

definition initial_state :: "(nat \<Rightarrow> ready_state) \<Rightarrow> server_state" where
  "initial_state r = \<lparr>clients = [], readyState = r, effects = [], next_handle = 0\<rparr>"

text \<open>The \<^verbatim>\<open>ffmpegProcess\<close> fields of the registered clients.\<close>

definition stored_processes :: "server_state \<Rightarrow> nat option list" where
  "stored_processes s = map (\<lambda>(k, c). ffmpegProcess c) (clients s)"

text \<open>
  What every handler guarantees about process handles, between the state \<open>t\<close> it starts in
  and the state \<open>t'\<close> it ends in: the trace only grows; the processes signalled are among
  those stored on a client in \<open>t\<close>; the counter does not decrease; and a handle stored on a
  client in \<open>t'\<close> was stored in \<open>t\<close> or was created in between.
\<close>

definition frame :: "server_state \<Rightarrow> server_state \<Rightarrow> bool" where
  "frame t t' \<longleftrightarrow>
     take (length (effects t)) (effects t') = effects t
     \<and> Some ` set (kills (new_effects t t')) \<subseteq> set (stored_processes t)
     \<and> next_handle t \<le> next_handle t'
     \<and> (\<forall>q. Some q \<in> set (stored_processes t') \<longrightarrow>
           Some q \<in> set (stored_processes t) \<or> (next_handle t \<le> q \<and> q < next_handle t'))"

text \<open>The process \<open>p\<close> exists, no client holds its handle, and every handle that a client
  holds is of a process that exists.\<close>

definition no_handle :: "nat \<Rightarrow> server_state \<Rightarrow> bool" where
  "no_handle p t \<longleftrightarrow>
     p < next_handle t \<and> Some p \<notin> set (stored_processes t)
     \<and> (\<forall>q. Some q \<in> set (stored_processes t) \<longrightarrow> q < next_handle t)"

subsection \<open>Identifiers and channels of the registry\<close>

text \<open>The channels on which the connections of a sequence of events arrive.\<close>

fun connection_channels :: "event list \<Rightarrow> nat list" where
  "connection_channels [] = []"
| "connection_channels (Connection w q # es) = w # connection_channels es"
| "connection_channels (e # es) = connection_channels es"

text \<open>The registry reduced to the identifier and the channel of each entry.\<close>

definition shape :: "server_state \<Rightarrow> (string \<times> nat) list" where
  "shape s = map (\<lambda>(k, c). (k, ws c)) (clients s)"

subsection \<open>Sample states\<close>

text \<open>Concrete states and a concrete library behaviour, for evaluating the handlers.\<close>

definition all_open :: "nat \<Rightarrow> ready_state" where
  "all_open w = OPEN"

text \<open>One client with a session, a video stream and a transcoding process.\<close>

definition s_one :: server_state where
  "s_one = \<lparr>clients = [(''a'', \<lparr>client_id = ''a'', ws = 0, peerConnection = Some 5,
                          mediaStreams = [(video, 1)], ffmpegProcess = Some 2\<rparr>)],
            readyState = all_open, effects = [], next_handle = 6\<rparr>"

text \<open>Two clients, each with a session, neither with a transcoding process.\<close>

definition two_active :: server_state where
  "two_active =
     \<lparr>clients = [(''a'', \<lparr>client_id = ''a'', ws = 0, peerConnection = Some 2,
                          mediaStreams = [], ffmpegProcess = None\<rparr>),
                 (''b'', \<lparr>client_id = ''b'', ws = 1, peerConnection = Some 3,
                          mediaStreams = [], ffmpegProcess = None\<rparr>)],
      readyState = all_open, effects = [], next_handle = 4\<rparr>"

text \<open>Two clients without a session.\<close>

definition two_idle :: server_state where
  "two_idle =
     \<lparr>clients = [(''a'', \<lparr>client_id = ''a'', ws = 0, peerConnection = None,
                          mediaStreams = [], ffmpegProcess = None\<rparr>),
                 (''b'', \<lparr>client_id = ''b'', ws = 1, peerConnection = None,
                          mediaStreams = [], ffmpegProcess = None\<rparr>)],
      readyState = all_open, effects = [], next_handle = 0\<rparr>"

text \<open>A library that accepts the description \<open>v=0\<close> and no other.\<close>

definition sample_werift :: werift where
  "sample_werift =
     \<lparr>negotiate = (\<lambda>pc offer. if offer = Some ''v=0'' then Negotiated (Some ''answer'')
                               else SetRemoteDescriptionThrows),
      addIceCandidate_resolves = (\<lambda>pc c. c \<noteq> None)\<rparr>"

text \<open>A \<^verbatim>\<open>server-offer\<close> message carrying the description text \<open>t\<close>.\<close>

definition offer_msg :: "string \<Rightarrow> SignalingMessage" where
  "offer_msg t =
     \<lparr>mtype = server_offer,
      payload = \<lparr>sdp = Some \<lparr>desc_type = Some ''offer'', desc_sdp = Some t\<rparr>,
                 candidate = None, toPeerID = None, fromPeerID = None, clientId = None\<rparr>\<rparr>"

text \<open>\<open>two_idle\<close> after the offer \<open>v=0\<close> of \<open>a\<close> was answered.\<close>

definition answered :: server_state where
  "answered =
     \<lparr>clients = [(''a'', \<lparr>client_id = ''a'', ws = 0, peerConnection = Some 0,
                          mediaStreams = [], ffmpegProcess = None\<rparr>),
                 (''b'', \<lparr>client_id = ''b'', ws = 1, peerConnection = None,
                          mediaStreams = [], ffmpegProcess = None\<rparr>)],
      readyState = all_open,
      effects = [NewPeerConnection 0, SetRemoteDescription 0 (Some ''v=0''), CreateAnswer 0,
                 SetLocalDescription 0, WsSend 0 (ServerAnswer (Some ''answer''))],
      next_handle = 1\<rparr>"

text \<open>A direct message to \<open>target\<close> in which the sender claims \<open>claimed\<close> as its origin.\<close>

definition direct_msg :: "message_type \<Rightarrow> string \<Rightarrow> string option \<Rightarrow> SignalingMessage" where
  "direct_msg ty target claimed =
     \<lparr>mtype = ty,
      payload = \<lparr>sdp = Some \<lparr>desc_type = Some ''offer'', desc_sdp = Some ''v=0''\<rparr>,
                 candidate = None, toPeerID = Some target, fromPeerID = claimed,
                 clientId = None\<rparr>\<rparr>"

text \<open>A \<^verbatim>\<open>signal-initiate-p2p\<close> message.\<close>

definition initiate_msg :: SignalingMessage where
  "initiate_msg =
     \<lparr>mtype = signal_initiate_p2p,
      payload = \<lparr>sdp = None, candidate = None, toPeerID = None, fromPeerID = None,
                 clientId = Some ''a''\<rparr>\<rparr>"

text \<open>Four clients; \<open>b\<close> has a session, two streams and a process; the channel of \<open>d\<close>
  is closing.\<close>

definition three_clients :: server_state where
  "three_clients =
     \<lparr>clients = [(''a'', \<lparr>client_id = ''a'', ws = 0, peerConnection = None,
                          mediaStreams = [], ffmpegProcess = None\<rparr>),
                 (''b'', \<lparr>client_id = ''b'', ws = 1, peerConnection = Some 4,
                          mediaStreams = [(audio, 6), (video, 7)], ffmpegProcess = Some 9\<rparr>),
                 (''c'', \<lparr>client_id = ''c'', ws = 2, peerConnection = None,
                          mediaStreams = [], ffmpegProcess = None\<rparr>),
                 (''d'', \<lparr>client_id = ''d'', ws = 3, peerConnection = None,
                          mediaStreams = [], ffmpegProcess = None\<rparr>)],
      readyState = (\<lambda>w. if w = 3 then CLOSING else OPEN), effects = [], next_handle = 10\<rparr>"

section \<open>Properties\<close>

subsection \<open>Basic facts about the state operations\<close>

lemma Map_get_Map_set: "Map_get (Map_set k v m) k' = (if k' = k then Some v else Map_get m k')"
  by (simp add: Map_get_def Map_set_def update_conv')

lemma keys_Map_set_present:
  "Map_get m k = Some old \<Longrightarrow> map fst (Map_set k v m) = map fst m"
  by (auto simp: Map_get_def Map_set_def update_keys dest: map_of_SomeD intro: rev_image_eqI)

lemma effects_emit: "effects (emit es s) = effects s @ es"
  by (simp add: emit_def)

lemma clients_emit: "clients (emit es s) = clients s"
  by (simp add: emit_def)

lemma next_handle_emit: "next_handle (emit es s) = next_handle s"
  by (simp add: emit_def)

lemma readyState_emit: "readyState (emit es s) = readyState s"
  by (simp add: emit_def)

lemma fresh_simps:
  "effects (fresh s) = effects s" "clients (fresh s) = clients s"
  "next_handle (fresh s) = Suc (next_handle s)" "readyState (fresh s) = readyState s"
  by (simp_all add: fresh_def)

lemmas state_simps = effects_emit clients_emit next_handle_emit readyState_emit fresh_simps

lemma new_effects_append: "effects s' = effects s @ es \<Longrightarrow> new_effects s s' = es"
  by (simp add: new_effects_def)

lemma Map_set_Map_set: "Map_set k v (Map_set k v' m) = Map_set k v m"
  by (simp add: Map_set_def)


lemma Map_delete_filter: "Map_delete k m = filter (\<lambda>(k', c). k' \<noteq> k) m"
  by (induction m) (auto simp: Map_delete_def)

lemma Map_get_in_keys: "Map_get m k = Some v \<Longrightarrow> k \<in> set (map fst m)"
  by (auto simp: Map_get_def dest: map_of_SomeD intro: rev_image_eqI)

lemma Map_get_in_set: "Map_get m k = Some v \<Longrightarrow> (k, v) \<in> set m"
  by (simp add: Map_get_def map_of_SomeD)

lemma count_list_distinct: "distinct xs \<Longrightarrow> count_list xs x = (if x \<in> set xs then 1 else 0)"
  by (induction xs) auto


lemma kills_append: "kills (xs @ ys) = kills xs @ kills ys"
  by (induction xs rule: kills.induct) simp_all

lemma sends_map_WsSend:
  "sends (map (\<lambda>(k, c). WsSend (ws c) msg) xs) = map (\<lambda>(k, c). (ws c, msg)) xs"
  by (induction xs) auto

lemma kills_map_WsSend: "kills (map (\<lambda>(k, c). WsSend (ws c) msg) xs) = []"
  by (induction xs) auto


lemma kills_map_StreamEnd: "kills (map (\<lambda>(k, st). StreamEnd st) xs) = []"
  by (induction xs) auto

lemma distinct_channel_sends:
  assumes "distinct (map (\<lambda>(k, c). ws c) m)"
  shows "distinct (map (\<lambda>(k, c). (ws c, msg)) (filter P m))"
  using assms by (induction m) (auto simp: image_iff)

lemma same_channel_same_client:
  assumes "distinct (map (\<lambda>(k, c). ws c) m)"
    and "(k, c) \<in> set m" and "(k', c') \<in> set m" and "ws c = ws c'"
  shows "k = k'"
  using assms by (induction m) (auto simp: image_iff)

subsection \<open>Connecting with an identifier that is already registered\<close>

text \<open>
  Claim C1 says that a connection whose client identifier is already in the registry is
  rejected with \<open>DuplicateClient\<close> and leaves the existing entry unchanged. The connection
  handler has no such check: it calls \<^verbatim>\<open>this.clients.set(clientId, client)\<close> for every
  non-empty identifier. In \<open>s_one\<close> the client \<open>a\<close> has channel 0, a session, a stream and a
  process; a second connection as \<open>a\<close> on channel 1 is accepted (the only library call is
  the log line, the channel is not closed) and the entry of \<open>a\<close> is a new, empty client.
\<close>

theorem on_connection_duplicate_counterexample:
  "Map_get (clients s_one) ''a'' =
      Some \<lparr>client_id = ''a'', ws = 0, peerConnection = Some 5,
            mediaStreams = [(video, 1)], ffmpegProcess = Some 2\<rparr>
   \<and> Map_get (clients (on_connection 1 (Some ''a'') s_one)) ''a'' =
      Some \<lparr>client_id = ''a'', ws = 1, peerConnection = None,
            mediaStreams = [], ffmpegProcess = None\<rparr>
   \<and> effects (on_connection 1 (Some ''a'') s_one) = [ConsoleLog ''Client a connected'']"
  by (simp add: on_connection_def s_one_def Map_get_def Map_set_def emit_def)

text \<open>
  C1, as the code has it: a connection carrying a non-empty identifier that is already
  registered is accepted. The entry of that identifier is replaced, at its place in the
  iteration order, by a new client that holds the new channel and has no session, no
  streams and no process; the entries of all other identifiers are unchanged; the only
  library call is the log line, so the new channel is not closed and nothing of the
  replaced entry is released.
\<close>

theorem on_connection_replaces:
  assumes "Map_get (clients s) cid = Some old" and "cid \<noteq> []"
  shows "Map_get (clients (on_connection w (Some cid) s)) cid =
           Some \<lparr>client_id = cid, ws = w, peerConnection = None,
                 mediaStreams = [], ffmpegProcess = None\<rparr>
       \<and> (\<forall>k. k \<noteq> cid \<longrightarrow>
             Map_get (clients (on_connection w (Some cid) s)) k = Map_get (clients s) k)
       \<and> map fst (clients (on_connection w (Some cid) s)) = map fst (clients s)
       \<and> effects (on_connection w (Some cid) s) =
           effects s @ [ConsoleLog (''Client '' @ cid @ '' connected'')]"
  using assms
  by (simp add: on_connection_def state_simps Map_get_Map_set keys_Map_set_present)

theorem on_connection_replaces_witness:
  "Map_get (clients s_one) ''a'' =
      Some \<lparr>client_id = ''a'', ws = 0, peerConnection = Some 5,
            mediaStreams = [(video, 1)], ffmpegProcess = Some 2\<rparr>
   \<and> Map_get (clients (on_connection 7 (Some ''a'') s_one)) ''a'' =
      Some \<lparr>client_id = ''a'', ws = 7, peerConnection = None,
            mediaStreams = [], ffmpegProcess = None\<rparr>
   \<and> map fst (clients (on_connection 7 (Some ''a'') s_one)) = [''a'']"
  using on_connection_replaces [of s_one "''a''" _ 7]
  by (simp add: s_one_def Map_get_def)

subsection \<open>Starting the transcoding twice\<close>

text \<open>
  Claim C2 says that two calls of \<^verbatim>\<open>startHLSProcessing\<close> in a row for the same client
  spawn at most one process. The guard of \<^verbatim>\<open>startHLSProcessing\<close> is the client's
  \<^verbatim>\<open>ffmpegProcess\<close> field, which \<^verbatim>\<open>createSingleClientHLSStream\<close> sets and
  \<^verbatim>\<open>createCompositeHLSStream\<close> does not. In \<open>two_active\<close> both clients have a session, so
  the composite branch is taken: the first call spawns process 4, the second call finds
  the field of \<open>a\<close> still empty and spawns process 5.
\<close>

theorem startHLSProcessing_twice_composite:
  "spawns (effects (startHLSProcessing ''a'' two_active)) = [4]
   \<and> spawns (effects (startHLSProcessing ''a'' (startHLSProcessing ''a'' two_active))) = [4, 5]
   \<and> clients (startHLSProcessing ''a'' (startHLSProcessing ''a'' two_active)) = clients two_active"
  by (simp add: startHLSProcessing_def createCompositeHLSStream_def two_active_def
      Map_get_def emit_def fresh_def)

subsection \<open>Which job is started\<close>

lemma createCompositeHLSStream_effects:
  assumes "2 \<le> length (filter (\<lambda>(k, c). peerConnection c \<noteq> None) (clients s))"
  shows "createCompositeHLSStream s =
     emit [Spawn (next_handle s)
             (composite_ffmpegArgs
                (path_join [Str outputDir,
                   Str (fst (filter (\<lambda>(k, c). peerConnection c \<noteq> None) (clients s) ! 0)),
                   Str ''video.h264''])
                (path_join [Str outputDir,
                   Str (fst (filter (\<lambda>(k, c). peerConnection c \<noteq> None) (clients s) ! 1)),
                   Str ''video.h264''])
                (path_join [Str outputDir,
                   Str (fst (filter (\<lambda>(k, c). peerConnection c \<noteq> None) (clients s) ! 0)),
                   Str ''audio.ogg''])
                (path_join [Str hlsDir, Str ''playlist.m3u8''])),
           ConsoleLog ''Started composite HLS stream processing''] (fresh s)"
proof -
  define active where "active = filter (\<lambda>(k, c). peerConnection c \<noteq> None) (clients s)"
  from assms obtain x y rest where a: "active = x # y # rest"
    unfolding active_def [symmetric]
    by (cases active; cases "tl active") auto
  obtain id1 c1 where x: "x = (id1, c1)" by (cases x)
  obtain id2 c2 where y: "y = (id2, c2)" by (cases y)
  show ?thesis
    unfolding createCompositeHLSStream_def active_def [symmetric]
    by (simp add: a x y)
qed



subsection \<open>Server offers\<close>

lemma handleServerOffer_unfold:
  assumes "Map_get (clients s) cid = Some client" and "sdp (payload m) = Some offer"
  shows "handleServerOffer lib cid m s =
     emit (SetRemoteDescription (next_handle s) (desc_sdp offer) #
           (case negotiate lib (next_handle s) (desc_sdp offer) of
              SetRemoteDescriptionThrows \<Rightarrow> [ConsoleError (offer_error_line cid)]
            | CreateAnswerThrows \<Rightarrow>
                [CreateAnswer (next_handle s), ConsoleError (offer_error_line cid)]
            | SetLocalDescriptionThrows \<Rightarrow>
                [CreateAnswer (next_handle s), SetLocalDescription (next_handle s),
                 ConsoleError (offer_error_line cid)]
            | Negotiated local \<Rightarrow>
                [CreateAnswer (next_handle s), SetLocalDescription (next_handle s),
                 WsSend (ws client) (ServerAnswer local)]))
       (emit [NewPeerConnection (next_handle s)]
          (fresh (s\<lparr>clients :=
             Map_set cid (client\<lparr>peerConnection := Some (next_handle s)\<rparr>) (clients s)\<rparr>)))"
  using assms
  by (simp add: handleServerOffer_def Let_def split: negotiation.split)

lemma dispatch_server_offer:
  assumes "Map_get (clients s) cid = Some client" and "mtype m = server_offer"
  shows "handleSignalingMessage lib cid m s = handleServerOffer lib cid m s"
  using assms by (simp add: handleSignalingMessage_def)



text \<open>
  Claim C5 says that an offer whose description cannot be applied leaves the client
  without an active session: the session is abandoned and closed. The handler stores the
  new peer connection on the client before the first awaited call and its \<^verbatim>\<open>catch\<close>
  block only logs. In \<open>two_idle\<close> the offer \<open>garbage\<close> of \<open>a\<close> is refused by the library:
  afterwards \<open>a\<close> holds peer connection 0, is the one client that the test
  \<^verbatim>\<open>c.peerConnection\<close> of the transcoding code counts as having a session, and the peer
  connection was not closed.
\<close>

theorem handleServerOffer_failure_counterexample:
  "map_option peerConnection
     (Map_get (clients (handleSignalingMessage sample_werift ''a'' (offer_msg ''garbage'') two_idle))
        ''a'') = Some (Some 0)
   \<and> map fst (filter (\<lambda>(k, c). peerConnection c \<noteq> None)
        (clients (handleSignalingMessage sample_werift ''a'' (offer_msg ''garbage'') two_idle))) =
       [''a'']
   \<and> effects (handleSignalingMessage sample_werift ''a'' (offer_msg ''garbage'') two_idle) =
       [NewPeerConnection 0, SetRemoteDescription 0 (Some ''garbage''),
        ConsoleError ''Error handling server offer from a:'']"
  by (simp add: handleSignalingMessage_def handleServerOffer_def two_idle_def offer_msg_def
      sample_werift_def Map_get_def Map_set_def emit_def fresh_def offer_error_line_def)

text \<open>
  C5, as the code has it: when one of the awaited calls throws, the error is logged as the
  last action of the handler, no message is sent, the handler returns normally, and the
  entries of all other clients and the order of the registry are unchanged. The session is
  not abandoned: the peer connection created for the offer stays stored on the client and
  is not closed.
\<close>

theorem handleServerOffer_failure:
  assumes "Map_get (clients s) cid = Some client"
    and "mtype m = server_offer"
    and "sdp (payload m) = Some offer"
    and "\<forall>local. negotiate lib (next_handle s) (desc_sdp offer) \<noteq> Negotiated local"
  shows "last (effects (handleSignalingMessage lib cid m s)) = ConsoleError (offer_error_line cid)
       \<and> sends (new_effects s (handleSignalingMessage lib cid m s)) = []
       \<and> (\<forall>p. PcClose p \<notin> set (new_effects s (handleSignalingMessage lib cid m s)))
       \<and> Map_get (clients (handleSignalingMessage lib cid m s)) cid =
           Some (client\<lparr>peerConnection := Some (next_handle s)\<rparr>)
       \<and> (\<forall>k. k \<noteq> cid \<longrightarrow>
             Map_get (clients (handleSignalingMessage lib cid m s)) k = Map_get (clients s) k)
       \<and> map fst (clients (handleSignalingMessage lib cid m s)) = map fst (clients s)"
proof -
  let ?s' = "handleSignalingMessage lib cid m s"
  let ?pc = "next_handle s"
  let ?tail = "case negotiate lib ?pc (desc_sdp offer) of
              SetRemoteDescriptionThrows \<Rightarrow> [ConsoleError (offer_error_line cid)]
            | CreateAnswerThrows \<Rightarrow>
                [CreateAnswer ?pc, ConsoleError (offer_error_line cid)]
            | SetLocalDescriptionThrows \<Rightarrow>
                [CreateAnswer ?pc, SetLocalDescription ?pc,
                 ConsoleError (offer_error_line cid)]
            | Negotiated local \<Rightarrow>
                [CreateAnswer ?pc, SetLocalDescription ?pc,
                 WsSend (ws client) (ServerAnswer local)]"
  have e: "effects ?s' = effects s @
      (NewPeerConnection ?pc # SetRemoteDescription ?pc (desc_sdp offer) # ?tail)"
    using assms(1-3)
    by (simp add: dispatch_server_offer handleServerOffer_unfold state_simps)
  have n: "new_effects s ?s' =
      NewPeerConnection ?pc # SetRemoteDescription ?pc (desc_sdp offer) # ?tail"
    by (rule new_effects_append [OF e])
  have l: "last (effects ?s') = ConsoleError (offer_error_line cid)"
    unfolding e using assms(4)
    by (cases "negotiate lib ?pc (desc_sdp offer)") simp_all
  have sd: "sends (new_effects s ?s') = []"
    unfolding n using assms(4)
    by (cases "negotiate lib ?pc (desc_sdp offer)") simp_all
  have pcl: "\<forall>p. PcClose p \<notin> set (new_effects s ?s')"
    unfolding n
    by (cases "negotiate lib ?pc (desc_sdp offer)") simp_all
  have c: "clients ?s' = Map_set cid (client\<lparr>peerConnection := Some ?pc\<rparr>) (clients s)"
    using assms(1-3)
    by (simp add: dispatch_server_offer handleServerOffer_unfold state_simps)
  show ?thesis
    using l sd pcl assms(1)
    by (simp add: c Map_get_Map_set keys_Map_set_present)
qed

theorem handleServerOffer_failure_witness:
  "last (effects (handleSignalingMessage sample_werift ''a'' (offer_msg ''garbage'') two_idle)) =
     ConsoleError ''Error handling server offer from a:''
   \<and> Map_get (clients (handleSignalingMessage sample_werift ''a'' (offer_msg ''garbage'') two_idle))
       ''a'' =
     Some \<lparr>client_id = ''a'', ws = 0, peerConnection = Some 0,
           mediaStreams = [], ffmpegProcess = None\<rparr>
   \<and> Map_get (clients (handleSignalingMessage sample_werift ''a'' (offer_msg ''garbage'') two_idle))
       ''b'' =
     Some \<lparr>client_id = ''b'', ws = 1, peerConnection = None,
           mediaStreams = [], ffmpegProcess = None\<rparr>"
  using handleServerOffer_failure [of two_idle "''a''" _ "offer_msg ''garbage''" _ sample_werift]
  by (simp add: two_idle_def Map_get_def offer_msg_def sample_werift_def offer_error_line_def)

text \<open>
  Claim C4 says that a second offer of a client whose answer was already sent is rejected
  with \<open>DuplicateOffer\<close> and does not overwrite the session. The handler has no such
  check. \<open>answered\<close> is the state after the offer of \<open>a\<close> was answered with peer connection
  0; the same offer again stores peer connection 1 on \<open>a\<close> and sends a second answer.
\<close>

theorem second_offer_counterexample:
  "handleSignalingMessage sample_werift ''a'' (offer_msg ''v=0'') two_idle = answered
   \<and> map_option peerConnection (Map_get (clients answered) ''a'') = Some (Some 0)
   \<and> map_option peerConnection
       (Map_get (clients (handleSignalingMessage sample_werift ''a'' (offer_msg ''v=0'') answered))
          ''a'') = Some (Some 1)
   \<and> new_effects answered
       (handleSignalingMessage sample_werift ''a'' (offer_msg ''v=0'') answered) =
       [NewPeerConnection 1, SetRemoteDescription 1 (Some ''v=0''), CreateAnswer 1,
        SetLocalDescription 1, WsSend 0 (ServerAnswer (Some ''answer''))]"
  by (simp add: answered_def handleSignalingMessage_def handleServerOffer_def two_idle_def
      offer_msg_def sample_werift_def Map_get_def Map_set_def emit_def fresh_def new_effects_def)

text \<open>
  C4, as the code has it: a \<^verbatim>\<open>server-offer\<close> of a client that already has a session is
  handled like a first one. A new peer connection is created and stored on the client in
  place of the old one, which is not closed; the offer is applied to the new one; when
  the negotiation succeeds one answer is sent. The result is the same as if the client
  had had no session.
\<close>

theorem second_offer_overwrites:
  assumes "Map_get (clients s) cid = Some client"
    and "peerConnection client = Some old"
    and "mtype m = server_offer"
    and "sdp (payload m) = Some offer"
  shows "Map_get (clients (handleSignalingMessage lib cid m s)) cid =
           Some (client\<lparr>peerConnection := Some (next_handle s)\<rparr>)
       \<and> take 2 (new_effects s (handleSignalingMessage lib cid m s)) =
           [NewPeerConnection (next_handle s),
            SetRemoteDescription (next_handle s) (desc_sdp offer)]
       \<and> (\<forall>p. PcClose p \<notin> set (new_effects s (handleSignalingMessage lib cid m s)))
       \<and> (\<forall>local. negotiate lib (next_handle s) (desc_sdp offer) = Negotiated local \<longrightarrow>
             sends (new_effects s (handleSignalingMessage lib cid m s)) =
               [(ws client, ServerAnswer local)])
       \<and> handleSignalingMessage lib cid m s =
           handleSignalingMessage lib cid m
             (s\<lparr>clients := Map_set cid (client\<lparr>peerConnection := None\<rparr>) (clients s)\<rparr>)"
proof -
  let ?s' = "handleSignalingMessage lib cid m s"
  let ?s0 = "s\<lparr>clients := Map_set cid (client\<lparr>peerConnection := None\<rparr>) (clients s)\<rparr>"
  let ?pc = "next_handle s"
  let ?tail = "case negotiate lib ?pc (desc_sdp offer) of
              SetRemoteDescriptionThrows \<Rightarrow> [ConsoleError (offer_error_line cid)]
            | CreateAnswerThrows \<Rightarrow>
                [CreateAnswer ?pc, ConsoleError (offer_error_line cid)]
            | SetLocalDescriptionThrows \<Rightarrow>
                [CreateAnswer ?pc, SetLocalDescription ?pc,
                 ConsoleError (offer_error_line cid)]
            | Negotiated local \<Rightarrow>
                [CreateAnswer ?pc, SetLocalDescription ?pc,
                 WsSend (ws client) (ServerAnswer local)]"
  have e: "effects ?s' = effects s @
      (NewPeerConnection ?pc # SetRemoteDescription ?pc (desc_sdp offer) # ?tail)"
    using assms(1,3,4)
    by (simp add: dispatch_server_offer handleServerOffer_unfold state_simps)
  have n: "new_effects s ?s' =
      NewPeerConnection ?pc # SetRemoteDescription ?pc (desc_sdp offer) # ?tail"
    by (rule new_effects_append [OF e])
  have c: "Map_get (clients ?s') cid = Some (client\<lparr>peerConnection := Some ?pc\<rparr>)"
    using assms(1,3,4)
    by (simp add: dispatch_server_offer handleServerOffer_unfold state_simps Map_get_Map_set)
  have t: "take 2 (new_effects s ?s') =
      [NewPeerConnection ?pc, SetRemoteDescription ?pc (desc_sdp offer)]"
    unfolding n by simp
  have pcl: "\<forall>p. PcClose p \<notin> set (new_effects s ?s')"
    unfolding n
    by (cases "negotiate lib ?pc (desc_sdp offer)") simp_all
  have sd: "\<forall>local. negotiate lib ?pc (desc_sdp offer) = Negotiated local \<longrightarrow>
      sends (new_effects s ?s') = [(ws client, ServerAnswer local)]"
    unfolding n by simp
  have g0: "Map_get (clients ?s0) cid = Some (client\<lparr>peerConnection := None\<rparr>)"
    by (simp add: Map_get_Map_set)
  have same: "?s' = handleSignalingMessage lib cid m ?s0"
    using assms(1,3,4) g0
    by (simp add: dispatch_server_offer [where client = client]
        dispatch_server_offer [where client = "client\<lparr>peerConnection := None\<rparr>"]
        handleServerOffer_unfold [where client = client]
        handleServerOffer_unfold [where client = "client\<lparr>peerConnection := None\<rparr>"]
        Map_set_Map_set emit_def fresh_def split: negotiation.split)
  show ?thesis
    using c t pcl sd same by blast
qed

theorem second_offer_overwrites_witness:
  "map_option peerConnection (Map_get (clients answered) ''a'') = Some (Some 0)
   \<and> map_option peerConnection
       (Map_get (clients (handleSignalingMessage sample_werift ''a'' (offer_msg ''v=0'') answered))
          ''a'') = Some (Some 1)
   \<and> sends (new_effects answered
       (handleSignalingMessage sample_werift ''a'' (offer_msg ''v=0'') answered)) =
       [(0, ServerAnswer (Some ''answer''))]"
proof -
  have g: "Map_get (clients answered) ''a'' =
      Some \<lparr>client_id = ''a'', ws = 0, peerConnection = Some 0,
            mediaStreams = [], ffmpegProcess = None\<rparr>"
    by (simp add: answered_def Map_get_def)
  have o: "sdp (payload (offer_msg ''v=0'')) =
      Some \<lparr>desc_type = Some ''offer'', desc_sdp = Some ''v=0''\<rparr>"
    by (simp add: offer_msg_def)
  have m: "mtype (offer_msg ''v=0'') = server_offer"
    by (simp add: offer_msg_def)
  note t = second_offer_overwrites [OF g _ m o, of 0 sample_werift, simplified]
  have c: "map_option peerConnection
       (Map_get (clients (handleSignalingMessage sample_werift ''a'' (offer_msg ''v=0'') answered))
          ''a'') = Some (Some 1)"
    using conjunct1 [OF t] by (simp add: answered_def)
  have sd: "sends (new_effects answered
       (handleSignalingMessage sample_werift ''a'' (offer_msg ''v=0'') answered)) =
       [(0, ServerAnswer (Some ''answer''))]"
    using conjunct1 [OF conjunct2 [OF conjunct2 [OF conjunct2 [OF t]]]]
    by (simp add: answered_def sample_werift_def)
  show ?thesis
    using g c sd by simp
qed

subsection \<open>Relaying direct messages\<close>

text \<open>
  Claim C6. A registered client \<open>A\<close> sends a \<^verbatim>\<open>direct-offer\<close>, \<^verbatim>\<open>direct-answer\<close> or
  \<^verbatim>\<open>direct-candidate\<close>. If the message names a target that is registered and whose
  channel is open, the only thing that happens is one send on the target's channel, of the
  message as received but with \<^verbatim>\<open>payload.fromPeerID\<close> set to \<open>A\<close>, whatever the sender put
  there. If no registered client with an open channel is named, nothing happens at all: no
  message is sent, nothing is logged and the state is the same. No registered client has
  the empty identifier, since the connection handler refuses it.
\<close>

theorem relay_direct_message:
  assumes "Map_get (clients s) A = Some sender"
    and "mtype m = direct_offer \<or> mtype m = direct_answer \<or> mtype m = direct_candidate"
    and "[] \<notin> set (map fst (clients s))"
  shows "(\<forall>B target.
            toPeerID (payload m) = Some B \<and> Map_get (clients s) B = Some target
            \<and> readyState s (ws target) = OPEN \<longrightarrow>
            handleSignalingMessage lib A m s =
              emit [WsSend (ws target)
                      (Relay (m\<lparr>payload := (payload m)\<lparr>fromPeerID := Some A\<rparr>\<rparr>))] s)
       \<and> ((\<forall>B target.
              toPeerID (payload m) = Some B \<and> Map_get (clients s) B = Some target \<longrightarrow>
              readyState s (ws target) \<noteq> OPEN) \<longrightarrow>
            handleSignalingMessage lib A m s = s)"
proof -
  have d: "handleSignalingMessage lib A m s = relayP2PMessage A m s"
    using assms(1,2) by (auto simp: handleSignalingMessage_def)
  have ne: "\<And>B target. Map_get (clients s) B = Some target \<Longrightarrow> B \<noteq> []"
    using assms(3) by (metis Map_get_in_keys)
  show ?thesis
    unfolding d
    by (auto simp: relayP2PMessage_def Let_def dest: ne split: option.splits)
qed

theorem relay_direct_message_witness:
  "handleSignalingMessage sample_werift ''a'' (direct_msg direct_offer ''b'' (Some ''zz''))
     three_clients =
     emit [WsSend 1 (Relay (direct_msg direct_offer ''b'' (Some ''a'')))] three_clients
   \<and> handleSignalingMessage sample_werift ''a'' (direct_msg direct_answer ''d'' None)
       three_clients = three_clients
   \<and> handleSignalingMessage sample_werift ''a'' (direct_msg direct_candidate ''e'' None)
       three_clients = three_clients"
proof -
  have k: "Map_get (clients three_clients) ''a'' =
      Some \<lparr>client_id = ''a'', ws = 0, peerConnection = None,
            mediaStreams = [], ffmpegProcess = None\<rparr>"
    "[] \<notin> set (map fst (clients three_clients))"
    by (simp_all add: three_clients_def Map_get_def)
  have 1: "handleSignalingMessage sample_werift ''a'' (direct_msg direct_offer ''b'' (Some ''zz''))
     three_clients =
     emit [WsSend 1 (Relay (direct_msg direct_offer ''b'' (Some ''a'')))] three_clients"
    using conjunct1 [OF relay_direct_message
        [OF k(1) _ k(2), of "direct_msg direct_offer ''b'' (Some ''zz'')" sample_werift],
        THEN spec, THEN spec, of "''b''"
          "\<lparr>client_id = ''b'', ws = 1, peerConnection = Some 4,
            mediaStreams = [(audio, 6), (video, 7)], ffmpegProcess = Some 9\<rparr>"]
    by (simp add: direct_msg_def three_clients_def Map_get_def)
  have 2: "handleSignalingMessage sample_werift ''a'' (direct_msg direct_answer ''d'' None)
       three_clients = three_clients"
    using conjunct2 [OF relay_direct_message
        [OF k(1) _ k(2), of "direct_msg direct_answer ''d'' None" sample_werift]]
    by (auto simp add: direct_msg_def three_clients_def Map_get_def)
  have 3: "handleSignalingMessage sample_werift ''a'' (direct_msg direct_candidate ''e'' None)
       three_clients = three_clients"
    using conjunct2 [OF relay_direct_message
        [OF k(1) _ k(2), of "direct_msg direct_candidate ''e'' None" sample_werift]]
    by (auto simp add: direct_msg_def three_clients_def Map_get_def)
  show ?thesis using 1 2 3 by simp
qed

subsection \<open>Peer discovery\<close>

text \<open>
  Claim C7. A registered client \<open>A\<close> sends \<^verbatim>\<open>signal-initiate-p2p\<close> (the specification's
  \<open>initiate-discovery\<close>). The messages sent are one notification carrying \<open>A\<close> on the channel
  of every other registered client whose channel is open, in the order of the registry,
  and nothing else: each such client gets exactly one, nobody else gets anything, and in
  particular nothing is sent on the channel of \<open>A\<close>. With no other client registered the
  state is unchanged. Channels of different clients are different objects.
\<close>

theorem initiate_discovery:
  assumes "Map_get (clients s) A = Some sender"
    and "mtype m = signal_initiate_p2p"
    and "distinct (map (\<lambda>(k, c). ws c) (clients s))"
  shows "clients (handleSignalingMessage lib A m s) = clients s
       \<and> new_effects s (handleSignalingMessage lib A m s) =
           map (\<lambda>(k, c). WsSend (ws c) (InitiateP2P A))
             (filter (\<lambda>(k, c). k \<noteq> A \<and> readyState s (ws c) = OPEN) (clients s))
       \<and> (\<forall>k c. (k, c) \<in> set (clients s) \<and> k \<noteq> A \<and> readyState s (ws c) = OPEN \<longrightarrow>
             count_list (sends (new_effects s (handleSignalingMessage lib A m s)))
               (ws c, InitiateP2P A) = 1)
       \<and> (\<forall>w msg. (w, msg) \<in> set (sends (new_effects s (handleSignalingMessage lib A m s))) \<longrightarrow>
             msg = InitiateP2P A
             \<and> (\<exists>k c. (k, c) \<in> set (clients s) \<and> k \<noteq> A \<and> ws c = w
                  \<and> readyState s w = OPEN))
       \<and> (\<forall>msg. (ws sender, msg) \<notin>
             set (sends (new_effects s (handleSignalingMessage lib A m s))))
       \<and> ((\<forall>k \<in> set (map fst (clients s)). k = A) \<longrightarrow>
             handleSignalingMessage lib A m s = s)"
proof -
  let ?s' = "handleSignalingMessage lib A m s"
  let ?others = "filter (\<lambda>(k, c). k \<noteq> A \<and> readyState s (ws c) = OPEN) (clients s)"
  have d: "?s' = emit (map (\<lambda>(k, c). WsSend (ws c) (InitiateP2P A)) ?others) s"
    using assms(1,2) by (simp add: handleSignalingMessage_def handleInitiateP2P_def)
  have c: "clients ?s' = clients s"
    by (simp add: d state_simps)
  have n: "new_effects s ?s' = map (\<lambda>(k, c). WsSend (ws c) (InitiateP2P A)) ?others"
    by (rule new_effects_append) (simp add: d state_simps)
  have sd: "sends (new_effects s ?s') = map (\<lambda>(k, c). (ws c, InitiateP2P A)) ?others"
    by (simp add: n sends_map_WsSend)
  have dist: "distinct (sends (new_effects s ?s'))"
    unfolding sd using assms(3) by (rule distinct_channel_sends)
  have one: "\<forall>k c. (k, c) \<in> set (clients s) \<and> k \<noteq> A \<and> readyState s (ws c) = OPEN \<longrightarrow>
      count_list (sends (new_effects s ?s')) (ws c, InitiateP2P A) = 1"
  proof (intro allI impI)
    fix k c
    assume h: "(k, c) \<in> set (clients s) \<and> k \<noteq> A \<and> readyState s (ws c) = OPEN"
    then have "(k, c) \<in> set ?others" by simp
    then have "(ws c, InitiateP2P A) \<in> set (sends (new_effects s ?s'))"
      unfolding sd by force
    then show "count_list (sends (new_effects s ?s')) (ws c, InitiateP2P A) = 1"
      using dist by (simp add: count_list_distinct)
  qed
  have only: "\<forall>w msg. (w, msg) \<in> set (sends (new_effects s ?s')) \<longrightarrow>
      msg = InitiateP2P A
      \<and> (\<exists>k c. (k, c) \<in> set (clients s) \<and> k \<noteq> A \<and> ws c = w \<and> readyState s w = OPEN)"
    unfolding sd by auto
  have notA: "\<forall>msg. (ws sender, msg) \<notin> set (sends (new_effects s ?s'))"
  proof (intro allI notI)
    fix msg
    assume "(ws sender, msg) \<in> set (sends (new_effects s ?s'))"
    with only obtain k c where kc: "(k, c) \<in> set (clients s)" "k \<noteq> A" "ws c = ws sender"
      by blast
    have "(A, sender) \<in> set (clients s)"
      using assms(1) by (rule Map_get_in_set)
    with assms(3) kc(1) have "k = A"
      using kc(3) by (rule same_channel_same_client)
    with kc(2) show False by simp
  qed
  have alone: "(\<forall>k \<in> set (map fst (clients s)). k = A) \<longrightarrow> ?s' = s"
  proof
    assume a: "\<forall>k \<in> set (map fst (clients s)). k = A"
    then have "?others = []"
      by (auto simp: filter_empty_conv)
    then show "?s' = s"
      by (simp add: d emit_def)
  qed
  show ?thesis
    using c n one only notA alone by blast
qed

theorem initiate_discovery_witness:
  "new_effects three_clients
     (handleSignalingMessage sample_werift ''a'' initiate_msg three_clients) =
     [WsSend 1 (InitiateP2P ''a''), WsSend 2 (InitiateP2P ''a'')]"
proof -
  have k: "Map_get (clients three_clients) ''a'' =
      Some \<lparr>client_id = ''a'', ws = 0, peerConnection = None,
            mediaStreams = [], ffmpegProcess = None\<rparr>"
    "mtype initiate_msg = signal_initiate_p2p"
    "distinct (map (\<lambda>(k, c). ws c) (clients three_clients))"
    by (simp_all add: three_clients_def Map_get_def initiate_msg_def)
  show ?thesis
    using conjunct1 [OF conjunct2 [OF initiate_discovery [OF k, of sample_werift]]]
    by (simp add: three_clients_def)
qed

subsection \<open>Disconnection\<close>

lemma handleClientDisconnect_unfold:
  assumes "Map_get (clients s) cid = Some client"
  shows "handleClientDisconnect cid s =
     emit (ConsoleLog (''Client '' @ cid @ '' disconnected'') #
           (case peerConnection client of None \<Rightarrow> [] | Some pc \<Rightarrow> [PcClose pc]) @
           map (\<lambda>(k, stream). StreamEnd stream) (mediaStreams client) @
           (case ffmpegProcess client of None \<Rightarrow> [] | Some p \<Rightarrow> [Kill p]) @
           map (\<lambda>(k, c). WsSend (ws c) (PeerDisconnected cid))
             (filter (\<lambda>(k, c). readyState s (ws c) = OPEN) (Map_delete cid (clients s))))
       (s\<lparr>clients := Map_delete cid (clients s)\<rparr>)"
  using assms
  by (simp add: handleClientDisconnect_def Let_def emit_def split: option.splits)

lemma handleClientDisconnect_absent:
  "Map_get (clients s) cid = None \<Longrightarrow> handleClientDisconnect cid s = s"
  by (simp add: handleClientDisconnect_def)




subsection \<open>The handle of the composite process\<close>

lemma mem_stored_processes:
  "Some q \<in> set (stored_processes s) \<longleftrightarrow>
     (\<exists>k c. (k, c) \<in> set (clients s) \<and> ffmpegProcess c = Some q)"
  by (force simp: stored_processes_def)

lemma stored_processes_emit: "stored_processes (emit es s) = stored_processes s"
  by (simp add: stored_processes_def state_simps)

lemma stored_processes_fresh: "stored_processes (fresh s) = stored_processes s"
  by (simp add: stored_processes_def state_simps)

lemma in_set_Map_setD: "(k, c) \<in> set (Map_set k' v m) \<Longrightarrow> (k, c) = (k', v) \<or> (k, c) \<in> set m"
  unfolding Map_set_def by (induction m) (auto split: if_splits)

lemma in_set_Map_deleteD: "(k, c) \<in> set (Map_delete k' m) \<Longrightarrow> (k, c) \<in> set m"
  by (simp add: Map_delete_filter)

lemma frame_refl: "frame t t"
  by (simp add: frame_def new_effects_def)

lemma frame_emit: "kills es = [] \<Longrightarrow> frame t (emit es t)"
  by (simp add: frame_def new_effects_def state_simps stored_processes_emit)

lemma frame_after_emit:
  assumes "frame (emit es t) t'" and "kills es = []"
  shows "frame t t'"
proof -
  from assms(1) have p: "take (length (effects t) + length es) (effects t') = effects t @ es"
    by (simp add: frame_def state_simps)
  then obtain Y where y: "effects t' = effects t @ es @ Y"
    by (metis append.assoc append_take_drop_id)
  from assms(1) have k: "Some ` set (kills (drop (length (effects t) + length es) (effects t')))
       \<subseteq> set (stored_processes t)"
    by (simp add: frame_def new_effects_def state_simps stored_processes_emit)
  have "kills (new_effects t t') = kills Y"
    by (simp add: new_effects_def y kills_append assms(2))
  moreover have "drop (length (effects t) + length es) (effects t') = Y"
    by (simp add: y)
  ultimately have "Some ` set (kills (new_effects t t')) \<subseteq> set (stored_processes t)"
    using k by simp
  moreover have "take (length (effects t)) (effects t') = effects t"
    by (simp add: y)
  ultimately show ?thesis
    using assms(1) by (simp add: frame_def state_simps stored_processes_emit)
qed

lemma frameI:
  assumes "effects t' = effects t @ X"
    and "Some ` set (kills X) \<subseteq> set (stored_processes t)"
    and "next_handle t \<le> next_handle t'"
    and "\<And>q. Some q \<in> set (stored_processes t') \<Longrightarrow>
           Some q \<in> set (stored_processes t) \<or> (next_handle t \<le> q \<and> q < next_handle t')"
  shows "frame t t'"
  using assms by (simp add: frame_def new_effects_def)

lemma stored_Map_set:
  assumes "Some q \<in> set (stored_processes (t\<lparr>clients := Map_set k c' (clients t)\<rparr>))"
  shows "ffmpegProcess c' = Some q \<or> Some q \<in> set (stored_processes t)"
proof -
  from assms obtain k'' c'' where "(k'', c'') \<in> set (Map_set k c' (clients t))"
      "ffmpegProcess c'' = Some q"
    by (auto simp: mem_stored_processes)
  then show ?thesis
    by (auto simp: mem_stored_processes dest!: in_set_Map_setD)
qed

lemma stored_Map_delete:
  assumes "Some q \<in> set (stored_processes (t\<lparr>clients := Map_delete k (clients t)\<rparr>))"
  shows "Some q \<in> set (stored_processes t)"
  using assms by (auto simp: mem_stored_processes dest!: in_set_Map_deleteD)

lemma frame_update:
  assumes "effects t' = effects t @ X"
    and "kills X = []"
    and "next_handle t \<le> next_handle t'"
    and "stored_processes t' = stored_processes (t\<lparr>clients := Map_set k c' (clients t)\<rparr>)"
    and "ffmpegProcess c' = None \<or> ffmpegProcess c' \<in> set (stored_processes t)
         \<or> (\<exists>q. ffmpegProcess c' = Some q \<and> next_handle t \<le> q \<and> q < next_handle t')"
  shows "frame t t'"
proof (rule frameI [OF assms(1)])
  show "Some ` set (kills X) \<subseteq> set (stored_processes t)"
    by (simp add: assms(2))
  show "next_handle t \<le> next_handle t'"
    by (rule assms(3))
next
  fix q
  assume "Some q \<in> set (stored_processes t')"
  then have "ffmpegProcess c' = Some q \<or> Some q \<in> set (stored_processes t)"
    unfolding assms(4) by (rule stored_Map_set)
  with assms(5) show "Some q \<in> set (stored_processes t)
      \<or> (next_handle t \<le> q \<and> q < next_handle t')"
    by auto
qed

lemma frame_emit_then:
  assumes "\<And>u. frame u (h u)" and "kills es = []"
  shows "frame t (h (emit es t))"
  using assms(1) [of "emit es t"] assms(2) by (rule frame_after_emit)

lemma frame_on_connection: "frame t (on_connection w q t)"
proof -
  have "\<And>cid. frame t (emit [ConsoleLog (''Client '' @ cid @ '' connected'')]
      (t\<lparr>clients := Map_set cid \<lparr>client_id = cid, ws = w, peerConnection = None,
                          mediaStreams = [], ffmpegProcess = None\<rparr> (clients t)\<rparr>))"
    subgoal for cid
      by (rule frame_update [where X = "[ConsoleLog (''Client '' @ cid @ '' connected'')]"
            and k = cid
            and c' = "\<lparr>client_id = cid, ws = w, peerConnection = None,
                          mediaStreams = [], ffmpegProcess = None\<rparr>"])
        (simp_all add: state_simps stored_processes_def)
    done
  then show ?thesis
    by (simp add: on_connection_def frame_emit Let_def split: option.splits)
qed

lemma frame_handleInitiateP2P: "frame t (handleInitiateP2P a t)"
  unfolding handleInitiateP2P_def
  by (rule frame_emit) (simp add: kills_map_WsSend)

lemma frame_handleServerOffer: "frame t (handleServerOffer lib cid m t)"
proof (cases "Map_get (clients t) cid")
  case None
  then show ?thesis by (simp add: handleServerOffer_def frame_refl)
next
  case (Some client)
  show ?thesis
  proof (cases "sdp (payload m)")
    case None
    with Some show ?thesis by (simp add: handleServerOffer_def frame_refl)
  next
    case (Some offer)
    have c: "ffmpegProcess (client\<lparr>peerConnection := Some (next_handle t)\<rparr>)
        \<in> set (stored_processes t) \<or> ffmpegProcess client = None"
      using Map_get_in_set [OF \<open>Map_get (clients t) cid = Some client\<close>]
      by (cases "ffmpegProcess client") (auto simp: mem_stored_processes)
    show ?thesis
      unfolding handleServerOffer_unfold [OF \<open>Map_get (clients t) cid = Some client\<close> Some]
      by (rule frame_update [where k = cid
            and c' = "client\<lparr>peerConnection := Some (next_handle t)\<rparr>"
            and X = "NewPeerConnection (next_handle t) # _"])
        (use c in \<open>auto simp: state_simps stored_processes_def split: negotiation.splits\<close>)
  qed
qed


lemma frame_onicecandidate: "frame t (onicecandidate w c t)"
  by (auto simp: onicecandidate_def frame_refl intro!: frame_emit split: option.splits)

lemma frame_handleServerCandidate: "frame t (handleServerCandidate lib cid m t)"
  by (auto simp: handleServerCandidate_def frame_refl intro!: frame_emit split: option.splits)

lemma frame_relayP2PMessage: "frame t (relayP2PMessage a m t)"
  by (auto simp: relayP2PMessage_def frame_refl Let_def intro!: frame_emit split: option.splits)

lemma frame_handleSignalingMessage: "frame t (handleSignalingMessage lib cid m t)"
  by (simp add: handleSignalingMessage_def frame_refl frame_handleInitiateP2P
      frame_handleServerOffer frame_handleServerCandidate frame_relayP2PMessage
      split: option.splits message_type.splits)


lemma stored_client:
  assumes "Map_get (clients t) cid = Some client"
  shows "ffmpegProcess client = None \<or> ffmpegProcess client \<in> set (stored_processes t)"
  using Map_get_in_set [OF assms]
  by (cases "ffmpegProcess client") (auto simp: mem_stored_processes)

lemma frame_setupVideoProcessing: "frame t (setupVideoProcessing cid t)"
proof (cases "Map_get (clients t) cid")
  case None
  then show ?thesis by (simp add: setupVideoProcessing_def frame_refl)
next
  case (Some client)
  show ?thesis
    unfolding setupVideoProcessing_def Let_def
    using stored_client [OF Some]
    by (simp add: Some)
      (rule frame_update [where k = cid
          and c' = "client\<lparr>mediaStreams :=
                       AList.update video (next_handle t) (mediaStreams client)\<rparr>"
          and X = "[CreateWriteStream _ _, CreateWriteStream _ _, SetTimeout _ _]"],
        auto simp: state_simps stored_processes_def)
qed

lemma frame_setupAudioProcessing: "frame t (setupAudioProcessing cid t)"
proof (cases "Map_get (clients t) cid")
  case None
  then show ?thesis by (simp add: setupAudioProcessing_def frame_refl)
next
  case (Some client)
  show ?thesis
    unfolding setupAudioProcessing_def Let_def
    using stored_client [OF Some]
    by (simp add: Some)
      (rule frame_update [where k = cid
          and c' = "client\<lparr>mediaStreams :=
                       AList.update audio (next_handle t) (mediaStreams client)\<rparr>"
          and X = "[CreateWriteStream _ _]"],
        auto simp: state_simps stored_processes_def)
qed

lemma frame_handleIncomingTrack: "frame t (handleIncomingTrack cid kind d t)"
proof (cases "Map_get (clients t) cid")
  case None
  then show ?thesis by (simp add: handleIncomingTrack_def frame_refl)
next
  case (Some client)
  show ?thesis
  proof (cases d)
    case True
    with Some show ?thesis
      by (simp add: handleIncomingTrack_def Let_def frame_refl
          frame_setupVideoProcessing frame_setupAudioProcessing)
  next
    case False
    with Some show ?thesis
      by (simp add: handleIncomingTrack_def Let_def frame_emit frame_emit_then
          frame_setupVideoProcessing frame_setupAudioProcessing)
  qed
qed

lemma frame_createCompositeHLSStream: "frame t (createCompositeHLSStream t)"
proof (cases "2 \<le> length (filter (\<lambda>(k, c). peerConnection c \<noteq> None) (clients t))")
  case True
  show ?thesis
    unfolding createCompositeHLSStream_effects [OF True]
    by (rule frameI [where X = "[Spawn _ _, ConsoleLog _]"])
      (simp_all add: state_simps stored_processes_emit stored_processes_fresh)
next
  case False
  then show ?thesis
    by (simp add: createCompositeHLSStream_def frame_refl)
qed

lemma frame_createSingleClientHLSStream:
  "frame t (createSingleClientHLSStream cid v a h t)"
proof (cases "Map_get (clients t) cid")
  case None
  then show ?thesis by (simp add: createSingleClientHLSStream_def frame_refl)
next
  case (Some client)
  show ?thesis
    unfolding createSingleClientHLSStream_def Let_def
    by (simp add: Some)
      (rule frame_update [where k = cid
          and c' = "client\<lparr>ffmpegProcess := Some (next_handle t)\<rparr>"
          and X = "[Spawn _ _, ConsoleLog _]"],
        auto simp: state_simps stored_processes_def)
qed

lemma frame_startHLSProcessing: "frame t (startHLSProcessing cid t)"
  by (simp add: startHLSProcessing_def Let_def frame_refl frame_createCompositeHLSStream
      frame_createSingleClientHLSStream split: option.splits)

lemma kills_handleClientDisconnect:
  "kills (new_effects t (handleClientDisconnect cid t)) =
     (case Map_get (clients t) cid of
        None \<Rightarrow> []
      | Some client \<Rightarrow> (case ffmpegProcess client of None \<Rightarrow> [] | Some p \<Rightarrow> [p]))"
proof (cases "Map_get (clients t) cid")
  case None
  then show ?thesis
    by (simp add: handleClientDisconnect_absent new_effects_def)
next
  case (Some client)
  then show ?thesis
    by (simp add: handleClientDisconnect_unfold [OF Some] new_effects_def state_simps
        kills_append kills_map_WsSend kills_map_StreamEnd split: option.splits)
qed

lemma frame_handleClientDisconnect: "frame t (handleClientDisconnect cid t)"
proof (cases "Map_get (clients t) cid")
  case None
  then show ?thesis by (simp add: handleClientDisconnect_absent frame_refl)
next
  case (Some client)
  have e: "take (length (effects t)) (effects (handleClientDisconnect cid t)) = effects t"
    by (simp add: handleClientDisconnect_unfold [OF Some] state_simps)
  have k: "Some ` set (kills (new_effects t (handleClientDisconnect cid t)))
      \<subseteq> set (stored_processes t)"
    using stored_client [OF Some]
    by (auto simp: kills_handleClientDisconnect Some split: option.splits)
  have n: "next_handle (handleClientDisconnect cid t) = next_handle t"
    by (simp add: handleClientDisconnect_unfold [OF Some] state_simps)
  have s: "stored_processes (handleClientDisconnect cid t) =
      stored_processes (t\<lparr>clients := Map_delete cid (clients t)\<rparr>)"
    by (simp add: handleClientDisconnect_unfold [OF Some] stored_processes_def state_simps)
  show ?thesis
    unfolding frame_def s n
    using e k by (auto dest: stored_Map_delete)
qed

lemma frame_step: "frame t (step lib e t)"
proof (cases e)
  case (Track cid kind d)
  have "frame t (handleIncomingTrack cid kind d
      (emit [ConsoleLog (''Received '' @ kind @ '' track from client '' @ cid)] t))"
    by (rule frame_emit_then) (simp_all add: frame_handleIncomingTrack)
  with Track show ?thesis
    by (simp add: step_def)
next
  case (Error cid)
  have "frame t (handleClientDisconnect cid
      (emit [ConsoleError (''WebSocket error for client '' @ cid @ '':'')] t))"
    by (rule frame_emit_then) (simp_all add: frame_handleClientDisconnect)
  with Error show ?thesis
    by (simp add: step_def)
next
  case (Ready w r)
  then show ?thesis
    by (simp add: step_def frame_def new_effects_def stored_processes_def)
qed (simp_all add: step_def frame_on_connection frame_handleSignalingMessage
      frame_onicecandidate frame_startHLSProcessing frame_handleClientDisconnect)

lemma frame_no_handle:
  assumes "frame t t'" and "no_handle p t"
  shows "no_handle p t' \<and> p \<notin> set (kills (new_effects t t'))"
  using assms unfolding frame_def no_handle_def
  by (auto simp: image_subset_iff)

lemma run_never_kills:
  assumes "no_handle p t"
  shows "p \<notin> set (kills (new_effects t (run lib evs t)))
       \<and> take (length (effects t)) (effects (run lib evs t)) = effects t
       \<and> no_handle p (run lib evs t)"
  using assms
proof (induction evs arbitrary: t)
  case Nil
  then show ?case by (simp add: new_effects_def)
next
  case (Cons e evs)
  let ?t1 = "step lib e t"
  let ?t2 = "run lib evs ?t1"
  have f: "frame t ?t1" by (rule frame_step)
  from frame_no_handle [OF f Cons.prems]
  have n1: "no_handle p ?t1" and k1: "p \<notin> set (kills (new_effects t ?t1))"
    by simp_all
  from Cons.IH [OF n1]
  have k2: "p \<notin> set (kills (new_effects ?t1 ?t2))"
    and p2: "take (length (effects ?t1)) (effects ?t2) = effects ?t1"
    and n2: "no_handle p ?t2"
    by simp_all
  from f have p1: "take (length (effects t)) (effects ?t1) = effects t"
    by (simp add: frame_def)
  obtain X where x: "effects ?t1 = effects t @ X"
    using p1 by (metis append_take_drop_id)
  obtain Y where y: "effects ?t2 = effects ?t1 @ Y"
    using p2 by (metis append_take_drop_id)
  have "new_effects t ?t2 = X @ Y" "new_effects t ?t1 = X" "new_effects ?t1 ?t2 = Y"
    by (simp_all add: new_effects_def x y)
  with k1 k2 have "p \<notin> set (kills (new_effects t ?t2))"
    by (simp add: kills_append)
  moreover have "take (length (effects t)) (effects ?t2) = effects t"
    by (simp add: x y)
  ultimately show ?case
    using n2 by simp
qed

lemma reachable_handles_bounded:
  "Some q \<in> set (stored_processes (run lib evs (initial_state r))) \<Longrightarrow>
     q < next_handle (run lib evs (initial_state r))"
proof -
  have "\<And>t. (\<forall>q. Some q \<in> set (stored_processes t) \<longrightarrow> q < next_handle t) \<Longrightarrow>
      (\<forall>q. Some q \<in> set (stored_processes (run lib evs t)) \<longrightarrow> q < next_handle (run lib evs t))"
  proof (induction evs)
    case Nil
    then show ?case by simp
  next
    case (Cons e evs)
    have "frame t (step lib e t)" by (rule frame_step)
    with Cons.prems
    have "\<forall>q. Some q \<in> set (stored_processes (step lib e t)) \<longrightarrow> q < next_handle (step lib e t)"
      unfolding frame_def by (metis less_le_trans)
    from Cons.IH [OF this] show ?case by simp
  qed
  from this [of "initial_state r"] show "Some q \<in> set (stored_processes (run lib evs (initial_state r))) \<Longrightarrow>
     q < next_handle (run lib evs (initial_state r))"
    by (simp add: initial_state_def stored_processes_def)
qed

text \<open>
  Claim C10. When \<^verbatim>\<open>createCompositeHLSStream\<close> starts the composite job (at least two
  clients have a session), it spawns one process and leaves the registry as it is: the
  handle of that process is in no client's \<^verbatim>\<open>ffmpegProcess\<close> field and all these fields
  are unchanged. \<^verbatim>\<open>handleClientDisconnect\<close> signals the process stored in the field of
  the client it is called for, and nothing else. So whatever happens afterwards
  (connections, messages, tracks, timers, closes and errors, in any number and order), the
  composite process is never sent a termination signal. The handles that clients hold
  are of processes spawned earlier, as in every state the server can reach.
\<close>

theorem composite_not_recorded:
  assumes "2 \<le> length (filter (\<lambda>(k, c). peerConnection c \<noteq> None) (clients s))"
    and "\<forall>q. Some q \<in> set (stored_processes s) \<longrightarrow> q < next_handle s"
  shows "spawns (new_effects s (createCompositeHLSStream s)) = [next_handle s]
       \<and> clients (createCompositeHLSStream s) = clients s
       \<and> Some (next_handle s) \<notin> set (stored_processes (createCompositeHLSStream s))
       \<and> (\<forall>lib evs. next_handle s \<notin>
             set (kills (new_effects (createCompositeHLSStream s)
                    (run lib evs (createCompositeHLSStream s)))))
       \<and> (\<forall>t cid. kills (new_effects t (handleClientDisconnect cid t)) =
             (case Map_get (clients t) cid of
                None \<Rightarrow> []
              | Some client \<Rightarrow> (case ffmpegProcess client of None \<Rightarrow> [] | Some p \<Rightarrow> [p])))"
proof -
  let ?s' = "createCompositeHLSStream s"
  note u = createCompositeHLSStream_effects [OF assms(1)]
  have sp: "spawns (new_effects s ?s') = [next_handle s]"
    by (simp add: u new_effects_def state_simps)
  have c: "clients ?s' = clients s"
    by (simp add: u state_simps)
  have st: "stored_processes ?s' = stored_processes s"
    by (simp add: stored_processes_def c)
  have nh: "next_handle ?s' = Suc (next_handle s)"
    by (simp add: u state_simps)
  have inv: "no_handle (next_handle s) ?s'"
    unfolding no_handle_def st nh
    using assms(2) by (auto simp: less_Suc_eq)
  have never: "\<forall>lib evs. next_handle s \<notin> set (kills (new_effects ?s' (run lib evs ?s')))"
    using run_never_kills [OF inv] by blast
  have notst: "Some (next_handle s) \<notin> set (stored_processes ?s')"
    using inv by (simp add: no_handle_def)
  show ?thesis
    using sp c notst never kills_handleClientDisconnect by blast
qed

theorem composite_not_recorded_witness:
  "spawns (new_effects two_active (createCompositeHLSStream two_active)) = [4]
   \<and> clients (createCompositeHLSStream two_active) = clients two_active
   \<and> 4 \<notin> set (kills (new_effects (createCompositeHLSStream two_active)
        (run sample_werift [Close ''a'', Timer ''b'', Close ''b'']
           (createCompositeHLSStream two_active))))"
proof -
  have a: "2 \<le> length (filter (\<lambda>(k, c). peerConnection c \<noteq> None) (clients two_active))"
    "\<forall>q. Some q \<in> set (stored_processes two_active) \<longrightarrow> q < next_handle two_active"
    by (simp_all add: two_active_def stored_processes_def)
  note t = composite_not_recorded [OF a]
  have 1: "spawns (new_effects two_active (createCompositeHLSStream two_active)) = [4]"
    using conjunct1 [OF t] by (simp add: two_active_def)
  have 2: "clients (createCompositeHLSStream two_active) = clients two_active"
    using conjunct1 [OF conjunct2 [OF t]] .
  have 3: "4 \<notin> set (kills (new_effects (createCompositeHLSStream two_active)
        (run sample_werift [Close ''a'', Timer ''b'', Close ''b'']
           (createCompositeHLSStream two_active))))"
    using conjunct1 [OF conjunct2 [OF conjunct2 [OF conjunct2 [OF t]]], THEN spec, THEN spec,
        of sample_werift "[Close ''a'', Timer ''b'', Close ''b'']"]
    by (simp add: two_active_def)
  show ?thesis using 1 2 3 by simp
qed

subsection \<open>The registry in the states the server can reach\<close>

text \<open>
  The properties above that speak about channels assume that different entries of the
  registry have different channels and that no entry has the empty identifier. Both
  hold in every state the server reaches from its initial state, as long as each
  connection arrives on a channel of its own: only the connection handler adds an entry
  or changes a channel, and it refuses the empty identifier.
\<close>

lemma shape_keys: "map fst (clients s) = map fst (shape s)"
  by (simp add: shape_def case_prod_unfold comp_def)

lemma shape_channels: "map (\<lambda>(k, c). ws c) (clients s) = map snd (shape s)"
  by (simp add: shape_def case_prod_unfold comp_def)

lemma shape_emit: "shape (emit es s) = shape s"
  by (simp add: shape_def state_simps)

lemma shape_fresh: "shape (fresh s) = shape s"
  by (simp add: shape_def state_simps)

lemma shape_Map_set_same:
  assumes "Map_get (clients s) k = Some c" and "ws c' = ws c"
  shows "shape (s\<lparr>clients := Map_set k c' (clients s)\<rparr>) = shape s"
proof -
  have "\<And>m. Map_get m k = Some c \<Longrightarrow>
      map (\<lambda>(k, c). (k, ws c)) (Map_set k c' m) = map (\<lambda>(k, c). (k, ws c)) m"
    subgoal for m
      unfolding Map_get_def Map_set_def using assms(2)
      by (induction m) (auto split: if_splits)
    done
  from this [OF assms(1)] show ?thesis by (simp add: shape_def)
qed

lemma shape_handleServerOffer: "shape (handleServerOffer lib cid m s) = shape s"
proof (cases "Map_get (clients s) cid")
  case None
  then show ?thesis by (simp add: handleServerOffer_def)
next
  case (Some client)
  show ?thesis
  proof (cases "sdp (payload m)")
    case None
    with Some show ?thesis by (simp add: handleServerOffer_def)
  next
    case (Some offer)
    show ?thesis
      unfolding handleServerOffer_unfold [OF \<open>Map_get (clients s) cid = Some client\<close> Some]
      by (simp add: shape_emit shape_fresh
          shape_Map_set_same [OF \<open>Map_get (clients s) cid = Some client\<close>])
  qed
qed

lemma shape_handleSignalingMessage: "shape (handleSignalingMessage lib cid m s) = shape s"
  by (simp add: handleSignalingMessage_def handleInitiateP2P_def handleServerCandidate_def
      relayP2PMessage_def shape_handleServerOffer shape_emit Let_def
      split: option.splits message_type.splits)

lemma shape_onicecandidate: "shape (onicecandidate w c s) = shape s"
  by (simp add: onicecandidate_def shape_emit split: option.splits)

lemma shape_setupVideoProcessing: "shape (setupVideoProcessing cid s) = shape s"
  by (simp add: setupVideoProcessing_def Let_def shape_emit shape_fresh shape_Map_set_same
      split: option.splits)

lemma shape_setupAudioProcessing: "shape (setupAudioProcessing cid s) = shape s"
  by (simp add: setupAudioProcessing_def Let_def shape_emit shape_fresh shape_Map_set_same
      split: option.splits)

lemma shape_handleIncomingTrack: "shape (handleIncomingTrack cid kind d s) = shape s"
  by (simp add: handleIncomingTrack_def Let_def shape_emit shape_setupVideoProcessing
      shape_setupAudioProcessing split: option.splits)

lemma shape_createCompositeHLSStream: "shape (createCompositeHLSStream s) = shape s"
  by (simp add: createCompositeHLSStream_def Let_def shape_emit shape_fresh
      split: list.splits prod.splits)

lemma shape_startHLSProcessing: "shape (startHLSProcessing cid s) = shape s"
  by (simp add: startHLSProcessing_def createSingleClientHLSStream_def Let_def
      shape_createCompositeHLSStream shape_emit shape_fresh shape_Map_set_same
      split: option.splits)

lemma shape_handleClientDisconnect:
  "shape (handleClientDisconnect cid s) = filter (\<lambda>(k, w). k \<noteq> cid) (shape s)"
proof (cases "Map_get (clients s) cid")
  case None
  then have "cid \<notin> fst ` set (clients s)"
    by (simp add: Map_get_def map_of_eq_None_iff)
  then have "filter (\<lambda>(k, w). k \<noteq> cid) (shape s) = shape s"
    by (force simp: shape_def filter_id_conv)
  with None show ?thesis
    by (simp add: handleClientDisconnect_absent)
next
  case (Some client)
  show ?thesis
    by (simp add: handleClientDisconnect_unfold [OF Some] shape_emit)
      (simp add: shape_def Map_delete_filter filter_map comp_def case_prod_unfold)
qed

lemma shape_Map_set:
  "map (\<lambda>(k, c). (k, ws c)) (Map_set cid c m) =
     AList.update cid (ws c) (map (\<lambda>(k, c). (k, ws c)) m)"
  unfolding Map_set_def by (induction m) auto

lemma shape_on_connection:
  "shape (on_connection w q s) =
     (case q of
        None \<Rightarrow> shape s
      | Some cid \<Rightarrow> if cid = [] then shape s else AList.update cid w (shape s))"
  by (simp add: on_connection_def shape_def state_simps shape_Map_set Let_def
      split: option.splits)

lemma distinct_channels_update:
  assumes "distinct (map snd m)" and "w \<notin> set (map snd m)"
  shows "distinct (map snd (AList.update k w m))
       \<and> set (map snd (AList.update k w m)) \<subseteq> insert w (set (map snd m))"
  using assms by (induction m) (auto simp: image_iff)

lemma keys_update: "set (map fst (AList.update k w m)) = insert k (set (map fst m))"
  by (induction m) auto

text \<open>One step keeps the identifiers non-empty and the channels distinct, when a new
  connection comes on a channel that no registered client has.\<close>

lemma step_registry:
  assumes "[] \<notin> set (map fst (shape t))"
    and "distinct (map snd (shape t))"
    and "set (connection_channels [e]) \<inter> set (map snd (shape t)) = {}"
  shows "[] \<notin> set (map fst (shape (step lib e t)))
       \<and> distinct (map snd (shape (step lib e t)))
       \<and> set (map snd (shape (step lib e t)))
           \<subseteq> set (map snd (shape t)) \<union> set (connection_channels [e])"
proof (cases e)
  case (Connection w q)
  from assms(3) have w: "w \<notin> set (map snd (shape t))"
    by (simp add: Connection)
  show ?thesis
  proof (cases "q = None \<or> q = Some []")
    case True
    then show ?thesis
      using assms(1,2) by (auto simp: Connection step_def shape_on_connection)
  next
    case False
    then obtain cid where q: "q = Some cid" "cid \<noteq> []" by auto
    have s: "shape (step lib e t) = AList.update cid w (shape t)"
      by (simp add: Connection step_def shape_on_connection q)
    have k: "[] \<notin> set (map fst (AList.update cid w (shape t)))"
      unfolding keys_update using assms(1) q(2) by simp
    show ?thesis
      unfolding s
      using distinct_channels_update [OF assms(2) w, of cid] k
      by (auto simp: Connection)
  qed
next
  case (Message cid m)
  then show ?thesis
    using assms(1,2) by (simp add: step_def shape_handleSignalingMessage)
next
  case (IceCandidate w c)
  then show ?thesis
    using assms(1,2) by (simp add: step_def shape_onicecandidate)
next
  case (Track cid kind d)
  then show ?thesis
    using assms(1,2) by (simp add: step_def shape_handleIncomingTrack shape_emit)
next
  case (Timer cid)
  then show ?thesis
    using assms(1,2) by (simp add: step_def shape_startHLSProcessing)
next
  case (Close cid)
  then show ?thesis
    using assms(1,2)
    by (auto simp: step_def shape_handleClientDisconnect distinct_map_filter)
next
  case (Error cid)
  then show ?thesis
    using assms(1,2)
    by (auto simp: step_def shape_handleClientDisconnect shape_emit distinct_map_filter)
next
  case (Ready w r)
  then show ?thesis
    using assms(1,2) by (simp add: step_def shape_def)
qed

lemma connection_channels_Cons:
  "set (connection_channels (e # es)) = set (connection_channels [e]) \<union> set (connection_channels es)"
  by (cases e) simp_all

lemma distinct_connection_channels_Cons:
  "distinct (connection_channels (e # es)) \<Longrightarrow>
     distinct (connection_channels es)
     \<and> set (connection_channels [e]) \<inter> set (connection_channels es) = {}"
  by (cases e) simp_all

lemma run_registry:
  assumes "[] \<notin> set (map fst (shape t))"
    and "distinct (map snd (shape t))"
    and "distinct (connection_channels evs)"
    and "set (connection_channels evs) \<inter> set (map snd (shape t)) = {}"
  shows "[] \<notin> set (map fst (shape (run lib evs t)))
       \<and> distinct (map snd (shape (run lib evs t)))"
  using assms
proof (induction evs arbitrary: t)
  case Nil
  then show ?case by simp
next
  case (Cons e evs)
  have c: "set (connection_channels [e]) \<inter> set (map snd (shape t)) = {}"
    using Cons.prems(4) by (auto simp: connection_channels_Cons [of e evs])
  note st = step_registry [OF Cons.prems(1,2) c, of lib]
  note d = distinct_connection_channels_Cons [OF Cons.prems(3)]
  have sub: "set (map snd (shape (step lib e t)))
      \<subseteq> set (map snd (shape t)) \<union> set (connection_channels [e])"
    using st by blast
  have dis: "set (connection_channels evs) \<inter> set (map snd (shape t)) = {}"
    using Cons.prems(4) unfolding connection_channels_Cons [of e evs] by blast
  have "set (connection_channels evs) \<inter> set (map snd (shape (step lib e t))) = {}"
    using sub dis d by blast
  with Cons.IH [of "step lib e t"] st d show ?case
    by simp
qed

lemma reachable_registry:
  assumes "distinct (connection_channels evs)"
  shows "[] \<notin> set (map fst (clients (run lib evs (initial_state r))))
       \<and> distinct (map (\<lambda>(k, c). ws c) (clients (run lib evs (initial_state r))))"
  using run_registry [of "initial_state r" evs lib] assms
  by (simp add: shape_keys shape_channels) (simp add: shape_def initial_state_def)

end
